theory Spec2Isabelle
  imports Main "HOL-Library.AList"
begin

section \<open>The simulation state of backend/server.py\<close>

text \<open>
  The server keeps one module-level dictionary \<open>simulation_state\<close>. Its entry
  \<open>traffic_data\<close> is a dictionary from direction names to dictionaries with the keys
  \<open>vehicles\<close> and \<open>signal\<close>. Direction names and signal colours are Python strings,
  vehicle counts and the cycle counter are Python integers.
\<close>

record approach =
  vehicles :: int
  signal :: string

text \<open>The dictionary built for one decision (class \<open>AIInsight\<close>); \<open>vehicle_counts\<close> is a
  dictionary in insertion order.\<close>

record insight =
  timestamp :: string
  decision :: string
  explanation :: string
  vehicle_counts :: "(string \<times> int) list"

record simulation =
  is_paused :: bool
  is_manual :: bool
  current_green :: string
  traffic_data :: "string \<rightharpoonup> approach"
  insights :: "insight list"
  cycle_count :: int

text \<open>Exceptions that leave a request handler, and the JSON bodies the handlers return.\<close>

datatype error = HTTPException nat string | KeyError string | ValueError

datatype response =
    Message string
  | MessagePaused string bool
  | MessageManual string bool
  | MessageTraffic string "string \<rightharpoonup> approach"
  | UpdateResult "string \<rightharpoonup> approach" string insight

text \<open>The list \<open>["north", "south", "east", "west"]\<close>, written out in \<open>update_traffic\<close>,
  \<open>set_manual_control\<close> and \<open>reset_simulation\<close>.\<close>

definition directions :: "string list" where
  "directions = [''north'', ''south'', ''east'', ''west'']"

text \<open>The module-level initial value of \<open>simulation_state\<close> (lines 33-45).\<close>

definition simulation_state :: simulation where
  "simulation_state =
     \<lparr> is_paused = False,
       is_manual = False,
       current_green = ''north'',
       traffic_data =
         [''north'' \<mapsto> \<lparr>vehicles = 0, signal = ''red''\<rparr>,
          ''south'' \<mapsto> \<lparr>vehicles = 0, signal = ''red''\<rparr>,
          ''east'' \<mapsto> \<lparr>vehicles = 0, signal = ''red''\<rparr>,
          ''west'' \<mapsto> \<lparr>vehicles = 0, signal = ''red''\<rparr>],
       insights = [],
       cycle_count = 0 \<rparr>"

section \<open>String formatting\<close>

text \<open>\<open>str(n)\<close> for a Python integer, as the f-strings use it.\<close>

fun str_nat :: "nat \<Rightarrow> string" where
  "str_nat n =
     (if n < 10 then [char_of (48 + n)]
      else str_nat (n div 10) @ [char_of (48 + n mod 10)])"

declare str_nat.simps [simp del]

definition str_int :: "int \<Rightarrow> string" where
  "str_int i = (if i < 0 then CHR ''-'' # str_nat (nat (- i)) else str_nat (nat i))"

text \<open>\<open>str.upper()\<close> on the letters a-z; other characters are kept.\<close>

definition upper_char :: "char \<Rightarrow> char" where
  "upper_char c =
     (let n = (of_char c :: nat) in if 97 \<le> n \<and> n \<le> 122 then char_of (n - 32) else c)"

definition upper :: "string \<Rightarrow> string" where
  "upper s = map upper_char s"

section \<open>generate_ai_explanation\<close>

text \<open>The fallback of the \<open>except\<close> branch (line 93).\<close>

definition fallback_explanation :: "string \<Rightarrow> int \<Rightarrow> string" where
  "fallback_explanation direction vehicle_count =
     ''Prioritizing '' @ direction @ '' road with '' @ str_int vehicle_count @
     '' vehicles due to highest congestion.''"

text \<open>
  The \<open>try\<close> body builds the chat client and the prompt and awaits the language model. Its
  outcome is the parameter \<open>llm\<close>: \<open>Some r\<close> when the body returns the response \<open>r\<close>,
  \<open>None\<close> when something in it raises an \<open>Exception\<close>. The \<open>except\<close> branch catches that,
  logs it and returns the fallback.
\<close>

definition generate_ai_explanation ::
  "string \<Rightarrow> int \<Rightarrow> (string \<times> int) list \<Rightarrow> string option \<Rightarrow> string" where
  "generate_ai_explanation direction vehicle_count all_counts llm =
     (case llm of
        Some response \<Rightarrow> response
      | None \<Rightarrow> fallback_explanation direction vehicle_count)"

section \<open>update_traffic\<close>

text \<open>
  The first loop (lines 123-126). The \<open>i\<close>-th call of \<open>random.randint(0, 50)\<close> in the
  request returns \<open>rnd i\<close>. Subscripting \<open>traffic_data\<close> with a missing key raises
  \<open>KeyError\<close>, and what was written before stays written.
\<close>

fun draw_counts ::
  "string list \<Rightarrow> (nat \<Rightarrow> int) \<Rightarrow> nat \<Rightarrow> (string \<rightharpoonup> approach) \<Rightarrow> (string \<times> int) list
     \<Rightarrow> error option \<times> (string \<rightharpoonup> approach) \<times> (string \<times> int) list" where
  "draw_counts [] rnd i td vc = (None, td, vc)"
| "draw_counts (direction # ds) rnd i td vc =
     (let count = rnd i in
      case td direction of
        None \<Rightarrow> (Some (KeyError direction), td, vc)
      | Some a \<Rightarrow>
          draw_counts ds rnd (Suc i)
            (td(direction \<mapsto> a\<lparr>vehicles := count\<rparr>))
            (AList.update direction count vc))"

text \<open>
  \<open>max(vehicle_counts, key=vehicle_counts.get)\<close> walks the keys in insertion order and
  keeps the first key whose value is the largest: a later key replaces the candidate only
  when its value is strictly greater. On a key of the dictionary, \<open>vehicle_counts.get\<close> is
  the value stored with it. On an empty dictionary \<open>max\<close> raises \<open>ValueError\<close>.
\<close>

fun max_from :: "string \<times> int \<Rightarrow> (string \<times> int) list \<Rightarrow> string" where
  "max_from (k, v) [] = k"
| "max_from (k, v) ((k', v') # rest) =
     (if v' > v then max_from (k', v') rest else max_from (k, v) rest)"

fun max_key :: "(string \<times> int) list \<Rightarrow> string option" where
  "max_key [] = None"
| "max_key (kv # rest) = Some (max_from kv rest)"

text \<open>The second loop (lines 133-137), also the loop of \<open>set_manual_control\<close>
  (lines 189-193).\<close>

fun set_signals ::
  "string list \<Rightarrow> string \<Rightarrow> (string \<rightharpoonup> approach) \<Rightarrow> error option \<times> (string \<rightharpoonup> approach)" where
  "set_signals [] green td = (None, td)"
| "set_signals (direction # ds) green td =
     (case td direction of
        None \<Rightarrow> (Some (KeyError direction), td)
      | Some a \<Rightarrow>
          set_signals ds green
            (td(direction \<mapsto> a\<lparr>signal := (if direction = green then ''green'' else ''red'')\<rparr>)))"

text \<open>
  The handler of \<open>POST /traffic/update\<close>. Besides the state it reads the random source
  \<open>rnd\<close>, the clock \<open>now\<close> (the ISO string of \<open>datetime.now(timezone.utc)\<close>) and the outcome
  \<open>llm\<close> of the language-model call. It returns the response or the exception, and the
  state it leaves behind.
\<close>

definition update_traffic ::
  "simulation \<Rightarrow> (nat \<Rightarrow> int) \<Rightarrow> string \<Rightarrow> string option \<Rightarrow> (error + response) \<times> simulation" where
  "update_traffic s rnd now llm =
     (if is_paused s \<or> is_manual s then
        (Inr (Message ''Simulation paused or in manual mode''), s)
      else
        case draw_counts directions rnd 0 (traffic_data s) [] of
          (Some e, td1, vc) \<Rightarrow> (Inl e, s\<lparr>traffic_data := td1\<rparr>)
        | (None, td1, vc) \<Rightarrow>
            (case max_key vc of
               None \<Rightarrow> (Inl ValueError, s\<lparr>traffic_data := td1\<rparr>)
             | Some max_direction \<Rightarrow>
                 (case map_of vc max_direction of
                    None \<Rightarrow> (Inl (KeyError max_direction), s\<lparr>traffic_data := td1\<rparr>)
                  | Some max_count \<Rightarrow>
                      (case set_signals directions max_direction td1 of
                         (Some e, td2) \<Rightarrow> (Inl e, s\<lparr>traffic_data := td2\<rparr>)
                       | (None, td2) \<Rightarrow>
                           (let explanation =
                                  generate_ai_explanation max_direction max_count vc llm;
                                new_insight =
                                  \<lparr> timestamp = now,
                                    decision = ''Green light: '' @ upper max_direction,
                                    explanation = explanation,
                                    vehicle_counts = vc \<rparr>;
                                inserted = new_insight # insights s
                            in (Inr (UpdateResult td2 max_direction new_insight),
                                s\<lparr> traffic_data := td2,
                                   current_green := max_direction,
                                   cycle_count := cycle_count s + 1,
                                   insights :=
                                     (if length inserted > 10 then take 10 inserted
                                      else inserted) \<rparr>))))))"

section \<open>The other handlers\<close>

definition pause_simulation :: "simulation \<Rightarrow> (error + response) \<times> simulation" where
  "pause_simulation s =
     (Inr (MessagePaused ''Simulation paused'' True), s\<lparr>is_paused := True\<rparr>)"

definition resume_simulation :: "simulation \<Rightarrow> (error + response) \<times> simulation" where
  "resume_simulation s =
     (Inr (MessagePaused ''Simulation resumed'' False), s\<lparr>is_paused := False\<rparr>)"

text \<open>\<open>control.direction\<close> is any string: the request model \<open>ManualControl\<close> declares
  \<open>direction: str\<close>.\<close>

definition set_manual_control :: "simulation \<Rightarrow> string \<Rightarrow> (error + response) \<times> simulation" where
  "set_manual_control s direction =
     (if direction \<notin> set directions then
        (Inl (HTTPException 400 ''Invalid direction''), s)
      else
        case set_signals directions direction (traffic_data s) of
          (Some e, td) \<Rightarrow> (Inl e, s\<lparr>is_manual := True, traffic_data := td\<rparr>)
        | (None, td) \<Rightarrow>
            (Inr (MessageTraffic (''Manual control: '' @ direction @ '' set to green'') td),
             s\<lparr>is_manual := True, traffic_data := td, current_green := direction\<rparr>))"

definition set_auto_mode :: "simulation \<Rightarrow> (error + response) \<times> simulation" where
  "set_auto_mode s =
     (Inr (MessageManual ''Switched to automatic mode'' False), s\<lparr>is_manual := False\<rparr>)"

text \<open>The loop of \<open>reset_simulation\<close> (lines 217-218) stores a fresh entry under each
  direction, so it cannot raise.\<close>

fun reset_entries :: "string list \<Rightarrow> (string \<rightharpoonup> approach) \<Rightarrow> (string \<rightharpoonup> approach)" where
  "reset_entries [] td = td"
| "reset_entries (direction # ds) td =
     reset_entries ds (td(direction \<mapsto> \<lparr>vehicles = 0, signal = ''red''\<rparr>))"

definition reset_simulation :: "simulation \<Rightarrow> (error + response) \<times> simulation" where
  "reset_simulation s =
     (let td = reset_entries directions (traffic_data s) in
      (Inr (MessageTraffic ''Simulation reset'' td),
       s\<lparr> is_paused := False,
          is_manual := False,
          current_green := ''north'',
          cycle_count := 0,
          insights := [],
          traffic_data := td \<rparr>))"

section \<open>Sequences of requests\<close>

datatype request =
    Update "nat \<Rightarrow> int" string "string option"
  | Pause
  | Resume
  | Manual string
  | Auto
  | Reset

fun handle :: "request \<Rightarrow> simulation \<Rightarrow> (error + response) \<times> simulation" where
  "handle (Update rnd now llm) s = update_traffic s rnd now llm"
| "handle Pause s = pause_simulation s"
| "handle Resume s = resume_simulation s"
| "handle (Manual direction) s = set_manual_control s direction"
| "handle Auto s = set_auto_mode s"
| "handle Reset s = reset_simulation s"

text \<open>The state after a list of requests, served one after the other: a handler runs from
  its request to its response before the next one starts.\<close>

fun serve :: "request list \<Rightarrow> simulation \<Rightarrow> simulation" where
  "serve [] s = s"
| "serve (r # rs) s = serve rs (snd (handle r s))"

section \<open>Predicates on states\<close>

text \<open>Every direction has its entry in \<open>traffic_data\<close>.\<close>

definition all_present :: "(string \<rightharpoonup> approach) \<Rightarrow> bool" where
  "all_present td = list_all (\<lambda>d. td d \<noteq> None) directions"

text \<open>The directions whose entry has the signal green.\<close>

definition green_directions :: "simulation \<Rightarrow> string list" where
  "green_directions s =
     filter (\<lambda>d. case traffic_data s d of None \<Rightarrow> False | Some a \<Rightarrow> signal a = ''green'')
       directions"

text \<open>The states in which \<open>update_traffic\<close> skips the cycle (line 116).\<close>

definition skipped :: "simulation \<Rightarrow> bool" where
  "skipped s = (is_paused s \<or> is_manual s)"

text \<open>The dictionary \<open>vehicle_counts\<close> that the first loop of \<open>update_traffic\<close> builds from
  the four draws.\<close>

definition drawn :: "(nat \<Rightarrow> int) \<Rightarrow> (string \<times> int) list" where
  "drawn rnd = [(''north'', rnd 0), (''south'', rnd 1), (''east'', rnd 2), (''west'', rnd 3)]"

text \<open>The number of update requests in a list that are not skipped when they are served.\<close>

fun completed_cycles :: "request list \<Rightarrow> simulation \<Rightarrow> nat" where
  "completed_cycles [] s = 0"
| "completed_cycles (r # rs) s =
     (case r of
        Update rnd now llm \<Rightarrow> (if skipped s then 0 else 1)
      | _ \<Rightarrow> 0) + completed_cycles rs (snd (handle r s))"

text \<open>The insight that a response carries: only the response of an update that was not
  skipped has one.\<close>

fun carried_insight :: "error + response \<Rightarrow> insight list" where
  "carried_insight (Inr (UpdateResult td g ins)) = [ins]"
| "carried_insight other = []"

text \<open>The insights that the responses to a list of requests carry, the latest first.\<close>

fun returned_insights :: "request list \<Rightarrow> simulation \<Rightarrow> insight list" where
  "returned_insights [] s = []"
| "returned_insights (r # rs) s =
     returned_insights rs (snd (handle r s)) @ carried_insight (fst (handle r s))"

section \<open>Evaluating the loops\<close>

lemma all_presentD:
  assumes "all_present td"
  obtains a0 a1 a2 a3 where "td ''north'' = Some a0" "td ''south'' = Some a1"
    "td ''east'' = Some a2" "td ''west'' = Some a3"
  using assms by (auto simp: all_present_def directions_def)

lemma all_presentI:
  assumes "td ''north'' \<noteq> None" "td ''south'' \<noteq> None" "td ''east'' \<noteq> None"
    "td ''west'' \<noteq> None"
  shows "all_present td"
  using assms by (simp add: all_present_def directions_def)

lemma draw_counts_present:
  assumes "td ''north'' = Some a0" "td ''south'' = Some a1"
    "td ''east'' = Some a2" "td ''west'' = Some a3"
  shows "draw_counts directions rnd 0 td [] =
           (None,
            td(''north'' \<mapsto> a0\<lparr>vehicles := rnd 0\<rparr>, ''south'' \<mapsto> a1\<lparr>vehicles := rnd 1\<rparr>,
               ''east'' \<mapsto> a2\<lparr>vehicles := rnd 2\<rparr>, ''west'' \<mapsto> a3\<lparr>vehicles := rnd 3\<rparr>),
            drawn rnd)"
  using assms by (simp add: directions_def drawn_def numeral_2_eq_2 numeral_3_eq_3 Let_def)

lemma set_signals_present:
  assumes "td ''north'' = Some a0" "td ''south'' = Some a1"
    "td ''east'' = Some a2" "td ''west'' = Some a3"
  shows "set_signals directions g td =
           (None,
            td(''north'' \<mapsto> a0\<lparr>signal := if ''north'' = g then ''green'' else ''red''\<rparr>,
               ''south'' \<mapsto> a1\<lparr>signal := if ''south'' = g then ''green'' else ''red''\<rparr>,
               ''east'' \<mapsto> a2\<lparr>signal := if ''east'' = g then ''green'' else ''red''\<rparr>,
               ''west'' \<mapsto> a3\<lparr>signal := if ''west'' = g then ''green'' else ''red''\<rparr>))"
  using assms by (simp add: directions_def)

text \<open>The walk of \<open>max\<close> over any dictionary: the entry it picks holds a largest value, and
  every entry before it holds a strictly smaller one.\<close>

lemma max_from_first_maximum:
  "\<exists>i \<le> length rest.
      max_from kv rest = fst ((kv # rest) ! i) \<and>
      (\<forall>j \<le> length rest. snd ((kv # rest) ! j) \<le> snd ((kv # rest) ! i)) \<and>
      (\<forall>j < i. snd ((kv # rest) ! j) < snd ((kv # rest) ! i))"
proof (induction rest arbitrary: kv)
  case Nil
  show ?case by (cases kv) simp
next
  case (Cons kv' rest)
  obtain k v where kv: "kv = (k, v)" by (cases kv)
  obtain k' v' where kv': "kv' = (k', v')" by (cases kv')
  show ?case
  proof (cases "v' > v")
    case True
    from Cons.IH [of kv'] obtain i where i: "i \<le> length rest"
      "max_from kv' rest = fst ((kv' # rest) ! i)"
      "\<forall>j \<le> length rest. snd ((kv' # rest) ! j) \<le> snd ((kv' # rest) ! i)"
      "\<forall>j < i. snd ((kv' # rest) ! j) < snd ((kv' # rest) ! i)" by blast
    from i(3) have top: "v' \<le> snd ((kv' # rest) ! i)" by (force simp: kv')
    have "Suc i \<le> length (kv' # rest)" using i(1) by simp
    moreover have "max_from kv (kv' # rest) = fst ((kv # kv' # rest) ! Suc i)"
      using True i(2) by (simp add: kv kv')
    moreover have "\<forall>j \<le> length (kv' # rest).
        snd ((kv # kv' # rest) ! j) \<le> snd ((kv # kv' # rest) ! Suc i)"
    proof (intro allI impI)
      fix j assume "j \<le> length (kv' # rest)"
      then show "snd ((kv # kv' # rest) ! j) \<le> snd ((kv # kv' # rest) ! Suc i)"
        using True top i(3) by (cases j) (simp_all add: kv)
    qed
    moreover have "\<forall>j < Suc i. snd ((kv # kv' # rest) ! j) < snd ((kv # kv' # rest) ! Suc i)"
    proof (intro allI impI)
      fix j assume "j < Suc i"
      then show "snd ((kv # kv' # rest) ! j) < snd ((kv # kv' # rest) ! Suc i)"
        using True top i(4) by (cases j) (simp_all add: kv)
    qed
    ultimately show ?thesis by blast
  next
    case False
    from Cons.IH [of kv] obtain i where i: "i \<le> length rest"
      "max_from kv rest = fst ((kv # rest) ! i)"
      "\<forall>j \<le> length rest. snd ((kv # rest) ! j) \<le> snd ((kv # rest) ! i)"
      "\<forall>j < i. snd ((kv # rest) ! j) < snd ((kv # rest) ! i)" by blast
    from i(3) have top: "v \<le> snd ((kv # rest) ! i)" by (force simp: kv)
    have run: "max_from kv (kv' # rest) = max_from kv rest" using False by (simp add: kv kv')
    show ?thesis
    proof (cases i)
      case 0
      have "\<forall>j \<le> length (kv' # rest). snd ((kv # kv' # rest) ! j) \<le> snd ((kv # kv' # rest) ! 0)"
      proof (intro allI impI)
        fix j assume j: "j \<le> length (kv' # rest)"
        show "snd ((kv # kv' # rest) ! j) \<le> snd ((kv # kv' # rest) ! 0)"
        proof (cases j)
          case 0 then show ?thesis by simp
        next
          case (Suc j')
          show ?thesis
          proof (cases j')
            case 0 with Suc False show ?thesis by (simp add: kv kv')
          next
            case (Suc j'')
            with \<open>j = Suc j'\<close> j have "Suc j'' \<le> length rest" by simp
            with i(3) \<open>i = 0\<close> have "snd ((kv # rest) ! Suc j'') \<le> snd ((kv # rest) ! 0)" by blast
            with Suc \<open>j = Suc j'\<close> show ?thesis by simp
          qed
        qed
      qed
      moreover have "max_from kv (kv' # rest) = fst ((kv # kv' # rest) ! 0)"
        using run i(2) 0 by simp
      ultimately show ?thesis by (intro exI [of _ 0]) simp
    next
      case (Suc i')
      have strict0: "v < snd ((kv # rest) ! i)" using i(4) Suc by (force simp: kv)
      have "Suc i \<le> length (kv' # rest)" using i(1) by simp
      moreover have "max_from kv (kv' # rest) = fst ((kv # kv' # rest) ! Suc i)"
        using run i(2) Suc by simp
      moreover have "\<forall>j \<le> length (kv' # rest).
          snd ((kv # kv' # rest) ! j) \<le> snd ((kv # kv' # rest) ! Suc i)"
      proof (intro allI impI)
        fix j assume j: "j \<le> length (kv' # rest)"
        show "snd ((kv # kv' # rest) ! j) \<le> snd ((kv # kv' # rest) ! Suc i)"
        proof (cases j)
          case 0 then show ?thesis using top Suc by (simp add: kv)
        next
          case (Suc j')
          show ?thesis
          proof (cases j')
            case 0 with \<open>j = Suc j'\<close> False top \<open>i = Suc i'\<close> show ?thesis by (simp add: kv kv')
          next
            case (Suc j'')
            with \<open>j = Suc j'\<close> j have "Suc j'' \<le> length rest" by simp
            with i(3) have "snd ((kv # rest) ! Suc j'') \<le> snd ((kv # rest) ! i)" by blast
            with Suc \<open>j = Suc j'\<close> \<open>i = Suc i'\<close> show ?thesis by simp
          qed
        qed
      qed
      moreover have "\<forall>j < Suc i. snd ((kv # kv' # rest) ! j) < snd ((kv # kv' # rest) ! Suc i)"
      proof (intro allI impI)
        fix j assume j: "j < Suc i"
        show "snd ((kv # kv' # rest) ! j) < snd ((kv # kv' # rest) ! Suc i)"
        proof (cases j)
          case 0 then show ?thesis using strict0 Suc by (simp add: kv)
        next
          case (Suc j')
          show ?thesis
          proof (cases j')
            case 0 with \<open>j = Suc j'\<close> False strict0 \<open>i = Suc i'\<close> show ?thesis by (simp add: kv kv')
          next
            case (Suc j'')
            with \<open>j = Suc j'\<close> j have "Suc j'' < i" by simp
            with i(4) have "snd ((kv # rest) ! Suc j'') < snd ((kv # rest) ! i)" by blast
            with Suc \<open>j = Suc j'\<close> \<open>i = Suc i'\<close> show ?thesis by simp
          qed
        qed
      qed
      ultimately show ?thesis by blast
    qed
  qed
qed

text \<open>\<open>max\<close> on the four draws: the index it picks holds a largest draw, and every earlier
  draw is strictly smaller.\<close>

lemma max_key_drawn:
  "\<exists>i<4. max_key (drawn rnd) = Some (directions ! i) \<and>
          map_of (drawn rnd) (directions ! i) = Some (rnd i) \<and>
          (\<forall>j<4. rnd j \<le> rnd i) \<and> (\<forall>j<i. rnd j < rnd i)"
  by (simp add: drawn_def directions_def eval_nat_numeral All_less_Suc Ex_less_Suc)

text \<open>A request that is not skipped, on a state with all four entries, runs to its
  \<open>return\<close>; this is the state it leaves and the response it gives.\<close>

lemma update_traffic_completes:
  assumes "\<not> skipped s" "all_present (traffic_data s)"
  obtains i td2 where
    "i < 4" "\<forall>j<4. rnd j \<le> rnd i" "\<forall>j<i. rnd j < rnd i"
    "\<forall>j<4. td2 (directions ! j) =
        Some \<lparr>vehicles = rnd j, signal = (if j = i then ''green'' else ''red'')\<rparr>"
    "\<forall>d. d \<notin> set directions \<longrightarrow> td2 d = traffic_data s d"
    "update_traffic s rnd now llm =
       (Inr (UpdateResult td2 (directions ! i)
               \<lparr> timestamp = now, decision = ''Green light: '' @ upper (directions ! i),
                 explanation = generate_ai_explanation (directions ! i) (rnd i) (drawn rnd) llm,
                 vehicle_counts = drawn rnd \<rparr>),
        s\<lparr> traffic_data := td2, current_green := directions ! i,
           cycle_count := cycle_count s + 1,
           insights :=
             take 10 (\<lparr> timestamp = now, decision = ''Green light: '' @ upper (directions ! i),
                 explanation = generate_ai_explanation (directions ! i) (rnd i) (drawn rnd) llm,
                 vehicle_counts = drawn rnd \<rparr> # insights s) \<rparr>)"
proof -
  from assms(2) obtain a0 a1 a2 a3 where a: "traffic_data s ''north'' = Some a0"
    "traffic_data s ''south'' = Some a1" "traffic_data s ''east'' = Some a2"
    "traffic_data s ''west'' = Some a3" by (rule all_presentD)
  obtain i where i: "i < 4" "max_key (drawn rnd) = Some (directions ! i)"
    "map_of (drawn rnd) (directions ! i) = Some (rnd i)"
    "\<forall>j<4. rnd j \<le> rnd i" "\<forall>j<i. rnd j < rnd i"
    using max_key_drawn [of rnd] by blast
  define g where "g = directions ! i"
  define td1 where "td1 = (traffic_data s)(''north'' \<mapsto> a0\<lparr>vehicles := rnd 0\<rparr>,
      ''south'' \<mapsto> a1\<lparr>vehicles := rnd 1\<rparr>, ''east'' \<mapsto> a2\<lparr>vehicles := rnd 2\<rparr>,
      ''west'' \<mapsto> a3\<lparr>vehicles := rnd 3\<rparr>)"
  define td2 where "td2 = td1(
      ''north'' \<mapsto> a0\<lparr>vehicles := rnd 0, signal := if ''north'' = g then ''green'' else ''red''\<rparr>,
      ''south'' \<mapsto> a1\<lparr>vehicles := rnd 1, signal := if ''south'' = g then ''green'' else ''red''\<rparr>,
      ''east'' \<mapsto> a2\<lparr>vehicles := rnd 2, signal := if ''east'' = g then ''green'' else ''red''\<rparr>,
      ''west'' \<mapsto> a3\<lparr>vehicles := rnd 3, signal := if ''west'' = g then ''green'' else ''red''\<rparr>)"
  have d1: "draw_counts directions rnd 0 (traffic_data s) [] = (None, td1, drawn rnd)"
    unfolding td1_def using a by (rule draw_counts_present)
  have d2: "set_signals directions g td1 = (None, td2)"
    unfolding td2_def by (rule set_signals_present) (simp_all add: td1_def)
  have run: "update_traffic s rnd now llm =
       (Inr (UpdateResult td2 g
               \<lparr> timestamp = now, decision = ''Green light: '' @ upper g,
                 explanation = generate_ai_explanation g (rnd i) (drawn rnd) llm,
                 vehicle_counts = drawn rnd \<rparr>),
        s\<lparr> traffic_data := td2, current_green := g,
           cycle_count := cycle_count s + 1,
           insights := take 10 (\<lparr> timestamp = now, decision = ''Green light: '' @ upper g,
                 explanation = generate_ai_explanation g (rnd i) (drawn rnd) llm,
                 vehicle_counts = drawn rnd \<rparr> # insights s) \<rparr>)"
    using assms(1) i(2) i(3) unfolding update_traffic_def skipped_def g_def [symmetric]
    by (simp add: d1 d2 Let_def)
  have cases_i: "i = 0 \<or> i = 1 \<or> i = 2 \<or> i = 3" using i(1) by arith
  have e: "\<forall>j<4. td2 (directions ! j) =
        Some \<lparr>vehicles = rnd j, signal = (if j = i then ''green'' else ''red'')\<rparr>"
    using cases_i unfolding td2_def td1_def g_def
    by (auto simp: directions_def eval_nat_numeral All_less_Suc)
  have f: "\<forall>d. d \<notin> set directions \<longrightarrow> td2 d = traffic_data s d"
    unfolding td2_def td1_def by (simp add: directions_def)
  from i(1) i(4) i(5) e f run [unfolded g_def] show ?thesis by (rule that)
qed

lemma initial_not_skipped: "\<not> skipped simulation_state"
  by (simp add: skipped_def simulation_state_def)

lemma initial_all_present: "all_present (traffic_data simulation_state)"
  by (simp add: all_present_def directions_def simulation_state_def)

section \<open>The skip of update_traffic\<close>

text \<open>
  Claim C4. While the simulation is paused or in manual mode, \<open>update_traffic\<close> returns the
  message that the cycle was skipped and leaves the whole state as it was: the entries of
  every direction, \<open>current_green\<close>, \<open>cycle_count\<close> and \<open>insights\<close> included.
\<close>

theorem update_traffic_skip:
  assumes "is_paused s \<or> is_manual s"
  shows "update_traffic s rnd now llm =
           (Inr (Message ''Simulation paused or in manual mode''), s)"
  using assms by (simp add: update_traffic_def)

theorem update_traffic_skip_witness:
  "(is_paused (simulation_state\<lparr>is_manual := True\<rparr>) \<or>
      is_manual (simulation_state\<lparr>is_manual := True\<rparr>)) \<and>
   update_traffic (simulation_state\<lparr>is_manual := True\<rparr>) (\<lambda>i. 7) ''t'' None =
     (Inr (Message ''Simulation paused or in manual mode''),
      simulation_state\<lparr>is_manual := True\<rparr>)"
  using update_traffic_skip [of "simulation_state\<lparr>is_manual := True\<rparr>" "\<lambda>i. 7" "''t''" None]
  by simp

section \<open>The decision of update_traffic\<close>

text \<open>
  Claim C3. An update that is not skipped turns green a direction that holds a largest of
  the four fresh draws, and every direction before it in the order north, south, east, west
  holds a strictly smaller draw: the first maximum of the enumeration. The entries carry
  the fresh draws. So a direction whose draw is strictly above the three others is the one
  selected, and the draws north 30, south 30, east 10, west 5 select north.
\<close>

theorem update_traffic_first_maximum:
  assumes "\<not> skipped s" "all_present (traffic_data s)"
  shows "(\<exists>i<4. current_green (snd (update_traffic s rnd now llm)) = directions ! i \<and>
            (\<forall>j<4. rnd j \<le> rnd i) \<and> (\<forall>j<i. rnd j < rnd i)) \<and>
         (\<forall>j<4. map_option vehicles
                   (traffic_data (snd (update_traffic s rnd now llm)) (directions ! j)) =
                 Some (rnd j)) \<and>
         (\<forall>k<4. (\<forall>j<4. j \<noteq> k \<longrightarrow> rnd j < rnd k) \<longrightarrow>
                 current_green (snd (update_traffic s rnd now llm)) = directions ! k) \<and>
         (rnd 0 = 30 \<and> rnd 1 = 30 \<and> rnd 2 = 10 \<and> rnd 3 = 5 \<longrightarrow>
            current_green (snd (update_traffic s rnd now llm)) = ''north'')"
proof -
  from assms obtain i td2 ins where i: "i < 4" "\<forall>j<4. rnd j \<le> rnd i" "\<forall>j<i. rnd j < rnd i"
    and td2: "\<forall>j<4. td2 (directions ! j) =
        Some \<lparr>vehicles = rnd j, signal = (if j = i then ''green'' else ''red'')\<rparr>"
    and run: "snd (update_traffic s rnd now llm) =
        s\<lparr> traffic_data := td2, current_green := directions ! i,
           cycle_count := cycle_count s + 1, insights := ins \<rparr>"
    by (rule update_traffic_completes [of s rnd now llm]) simp
  have g: "current_green (snd (update_traffic s rnd now llm)) = directions ! i"
    by (simp add: run)
  have first: "\<exists>i<4. current_green (snd (update_traffic s rnd now llm)) = directions ! i \<and>
            (\<forall>j<4. rnd j \<le> rnd i) \<and> (\<forall>j<i. rnd j < rnd i)"
    using i g by blast
  have counts: "\<forall>j<4. map_option vehicles
                   (traffic_data (snd (update_traffic s rnd now llm)) (directions ! j)) =
                 Some (rnd j)"
    using td2 by (simp add: run)
  have strict: "\<forall>k<4. (\<forall>j<4. j \<noteq> k \<longrightarrow> rnd j < rnd k) \<longrightarrow>
                 current_green (snd (update_traffic s rnd now llm)) = directions ! k"
  proof (intro allI impI)
    fix k assume k: "k < 4" "\<forall>j<4. j \<noteq> k \<longrightarrow> rnd j < rnd k"
    have "i = k"
    proof (rule ccontr)
      assume "i \<noteq> k"
      with k i(1) have "rnd i < rnd k" by blast
      moreover from i(2) k(1) have "rnd k \<le> rnd i" by blast
      ultimately show False by simp
    qed
    with g show "current_green (snd (update_traffic s rnd now llm)) = directions ! k" by simp
  qed
  have tie: "rnd 0 = 30 \<and> rnd 1 = 30 \<and> rnd 2 = 10 \<and> rnd 3 = 5 \<longrightarrow>
            current_green (snd (update_traffic s rnd now llm)) = ''north''"
  proof
    assume r: "rnd 0 = 30 \<and> rnd 1 = 30 \<and> rnd 2 = 10 \<and> rnd 3 = 5"
    have "i = 0 \<or> i = 1 \<or> i = 2 \<or> i = 3" using i(1) by arith
    then have "i = 0"
    proof (elim disjE)
      assume "i = 1" with i(3) have "rnd 0 < rnd 1" by simp
      with r show ?thesis by simp
    next
      assume "i = 2" with i(3) have "rnd 0 < rnd 2" by simp
      with r show ?thesis by simp
    next
      assume "i = 3" with i(3) have "rnd 0 < rnd 3" by simp
      with r show ?thesis by simp
    qed
    with g show "current_green (snd (update_traffic s rnd now llm)) = ''north''"
      by (simp add: directions_def)
  qed
  from first counts strict tie show ?thesis by blast
qed

theorem update_traffic_first_maximum_witness:
  "\<not> skipped simulation_state \<and> all_present (traffic_data simulation_state) \<and>
   current_green (snd (update_traffic simulation_state (\<lambda>i. [30, 30, 10, 5] ! i) ''t'' None)) =
     ''north''"
  using update_traffic_first_maximum [OF initial_not_skipped initial_all_present,
      of "\<lambda>i. [30, 30, 10, 5] ! i" "''t''" None]
    initial_not_skipped initial_all_present
  by simp

section \<open>The fallback explanation\<close>

text \<open>
  Claim C5. When the language-model call of an update that is not skipped fails, the
  handler still returns its normal response, and the explanation of the insight it stores
  and returns is the fallback sentence, filled with the selected direction and the count
  drawn for it.
\<close>

theorem provider_failure_fallback:
  assumes "\<not> skipped s" "all_present (traffic_data s)"
  shows "\<exists>td g c ins.
           fst (update_traffic s rnd now None) = Inr (UpdateResult td g ins) \<and>
           current_green (snd (update_traffic s rnd now None)) = g \<and>
           map_option vehicles (traffic_data (snd (update_traffic s rnd now None)) g) = Some c \<and>
           hd (insights (snd (update_traffic s rnd now None))) = ins \<and>
           explanation ins =
             ''Prioritizing '' @ g @ '' road with '' @ str_int c @
             '' vehicles due to highest congestion.''"
proof -
  from assms obtain i td2 where i: "i < 4"
    and td2: "\<forall>j<4. td2 (directions ! j) =
        Some \<lparr>vehicles = rnd j, signal = (if j = i then ''green'' else ''red'')\<rparr>"
    and run: "update_traffic s rnd now None =
       (Inr (UpdateResult td2 (directions ! i)
               \<lparr> timestamp = now, decision = ''Green light: '' @ upper (directions ! i),
                 explanation = generate_ai_explanation (directions ! i) (rnd i) (drawn rnd) None,
                 vehicle_counts = drawn rnd \<rparr>),
        s\<lparr> traffic_data := td2, current_green := directions ! i,
           cycle_count := cycle_count s + 1,
           insights :=
             take 10 (\<lparr> timestamp = now, decision = ''Green light: '' @ upper (directions ! i),
                 explanation = generate_ai_explanation (directions ! i) (rnd i) (drawn rnd) None,
                 vehicle_counts = drawn rnd \<rparr> # insights s) \<rparr>)"
    by (rule update_traffic_completes [of s rnd now None])
  from td2 i have c: "map_option vehicles (td2 (directions ! i)) = Some (rnd i)" by simp
  show ?thesis
    apply (rule exI [of _ td2])
    apply (rule exI [of _ "directions ! i"])
    apply (rule exI [of _ "rnd i"])
    using c by (simp add: run generate_ai_explanation_def fallback_explanation_def)
qed

theorem provider_failure_fallback_witness:
  "explanation (hd (insights (snd (update_traffic simulation_state
       (\<lambda>i. [30, 30, 10, 5] ! i) ''t'' None)))) =
    ''Prioritizing north road with 30 vehicles due to highest congestion.''"
proof -
  let ?s' = "snd (update_traffic simulation_state (\<lambda>i. [30, 30, 10, 5] ! i) ''t'' None)"
  have n: "str_int 30 = ''30''" by code_simp
  have g: "current_green ?s' = ''north''"
    by (simp add: update_traffic_def simulation_state_def directions_def Let_def)
  have c: "map_option vehicles (traffic_data ?s' ''north'') = Some 30"
    by (simp add: update_traffic_def simulation_state_def directions_def Let_def)
  from provider_failure_fallback [OF initial_not_skipped initial_all_present,
      of "\<lambda>i. [30, 30, 10, 5] ! i" "''t''"]
  obtain g' c' ins where "current_green ?s' = g'"
    "map_option vehicles (traffic_data ?s' g') = Some c'"
    "hd (insights ?s') = ins"
    "explanation ins =
             ''Prioritizing '' @ g' @ '' road with '' @ str_int c' @
             '' vehicles due to highest congestion.''"
    by blast
  with g c n show ?thesis by auto
qed

section \<open>set_manual_control\<close>

text \<open>A request for one of the four directions, on a state with all four entries, runs to
  its \<open>return\<close>: each entry keeps its count and gets its colour.\<close>

lemma set_manual_control_completes:
  assumes "d \<in> set directions" "all_present (traffic_data s)"
  obtains td where
    "\<forall>d' \<in> set directions. \<exists>a. traffic_data s d' = Some a \<and>
        td d' = Some (a\<lparr>signal := if d' = d then ''green'' else ''red''\<rparr>)"
    "\<forall>d'. d' \<notin> set directions \<longrightarrow> td d' = traffic_data s d'"
    "set_manual_control s d =
       (Inr (MessageTraffic (''Manual control: '' @ d @ '' set to green'') td),
        s\<lparr>is_manual := True, traffic_data := td, current_green := d\<rparr>)"
proof -
  from assms(2) obtain a0 a1 a2 a3 where a: "traffic_data s ''north'' = Some a0"
    "traffic_data s ''south'' = Some a1" "traffic_data s ''east'' = Some a2"
    "traffic_data s ''west'' = Some a3" by (rule all_presentD)
  define td where "td = (traffic_data s)(
      ''north'' \<mapsto> a0\<lparr>signal := if ''north'' = d then ''green'' else ''red''\<rparr>,
      ''south'' \<mapsto> a1\<lparr>signal := if ''south'' = d then ''green'' else ''red''\<rparr>,
      ''east'' \<mapsto> a2\<lparr>signal := if ''east'' = d then ''green'' else ''red''\<rparr>,
      ''west'' \<mapsto> a3\<lparr>signal := if ''west'' = d then ''green'' else ''red''\<rparr>)"
  have l: "set_signals directions d (traffic_data s) = (None, td)"
    unfolding td_def using a by (rule set_signals_present)
  have run: "set_manual_control s d =
       (Inr (MessageTraffic (''Manual control: '' @ d @ '' set to green'') td),
        s\<lparr>is_manual := True, traffic_data := td, current_green := d\<rparr>)"
    using assms(1) by (simp add: set_manual_control_def l)
  have e: "\<forall>d' \<in> set directions. \<exists>a. traffic_data s d' = Some a \<and>
        td d' = Some (a\<lparr>signal := if d' = d then ''green'' else ''red''\<rparr>)"
    using a by (simp add: td_def directions_def)
  have f: "\<forall>d'. d' \<notin> set directions \<longrightarrow> td d' = traffic_data s d'"
    by (simp add: td_def directions_def)
  from e f run show ?thesis by (rule that)
qed

text \<open>
  Claim C7. A direction that is none of north, south, east, west makes
  \<open>set_manual_control\<close> raise the HTTP error 400 "Invalid direction", a client error, and the
  whole state stays as it was: the check comes before the first assignment.
\<close>

theorem set_manual_control_rejects:
  assumes "direction \<notin> {''north'', ''south'', ''east'', ''west''}"
  shows "set_manual_control s direction = (Inl (HTTPException 400 ''Invalid direction''), s)"
  using assms by (simp add: set_manual_control_def directions_def)

theorem set_manual_control_rejects_witness:
  "''northeast'' \<notin> {''north'', ''south'', ''east'', ''west''} \<and>
   set_manual_control simulation_state ''northeast'' =
     (Inl (HTTPException 400 ''Invalid direction''), simulation_state)"
  using set_manual_control_rejects [of "''northeast''" simulation_state] by simp

text \<open>
  Claim C8. For each of the four directions \<open>d\<close>, on a state with all four entries,
  \<open>set_manual_control\<close> returns its normal response, sets \<open>is_manual\<close>, makes the signal of
  \<open>d\<close> green and the three other signals red, sets \<open>current_green\<close> to \<open>d\<close>, and leaves every
  vehicle count, \<open>cycle_count\<close>, \<open>insights\<close> and \<open>is_paused\<close> as they were. From the initial
  state, the direction east gives \<open>current_green\<close> east, east green, the others red, manual
  mode on and \<open>cycle_count\<close> still 0.
\<close>

theorem set_manual_control_accepts:
  assumes "d \<in> {''north'', ''south'', ''east'', ''west''}" "all_present (traffic_data s)"
  shows "(\<exists>msg td. fst (set_manual_control s d) = Inr (MessageTraffic msg td)) \<and>
         is_manual (snd (set_manual_control s d)) \<and>
         current_green (snd (set_manual_control s d)) = d \<and>
         (\<forall>d' \<in> {''north'', ''south'', ''east'', ''west''}.
            map_option signal (traffic_data (snd (set_manual_control s d)) d') =
              Some (if d' = d then ''green'' else ''red'')) \<and>
         (\<forall>d'. map_option vehicles (traffic_data (snd (set_manual_control s d)) d') =
               map_option vehicles (traffic_data s d')) \<and>
         cycle_count (snd (set_manual_control s d)) = cycle_count s \<and>
         insights (snd (set_manual_control s d)) = insights s \<and>
         is_paused (snd (set_manual_control s d)) = is_paused s \<and>
         current_green (snd (set_manual_control simulation_state ''east'')) = ''east'' \<and>
         map_option signal (traffic_data (snd (set_manual_control simulation_state ''east'')) ''east'')
           = Some ''green'' \<and>
         map_option signal (traffic_data (snd (set_manual_control simulation_state ''east'')) ''north'')
           = Some ''red'' \<and>
         map_option signal (traffic_data (snd (set_manual_control simulation_state ''east'')) ''south'')
           = Some ''red'' \<and>
         map_option signal (traffic_data (snd (set_manual_control simulation_state ''east'')) ''west'')
           = Some ''red'' \<and>
         is_manual (snd (set_manual_control simulation_state ''east'')) \<and>
         cycle_count (snd (set_manual_control simulation_state ''east'')) = 0"
proof -
  from assms(1) have d: "d \<in> set directions" by (simp add: directions_def)
  from d assms(2) obtain td where
    e: "\<forall>d' \<in> set directions. \<exists>a. traffic_data s d' = Some a \<and>
        td d' = Some (a\<lparr>signal := if d' = d then ''green'' else ''red''\<rparr>)"
    and f: "\<forall>d'. d' \<notin> set directions \<longrightarrow> td d' = traffic_data s d'"
    and run: "set_manual_control s d =
       (Inr (MessageTraffic (''Manual control: '' @ d @ '' set to green'') td),
        s\<lparr>is_manual := True, traffic_data := td, current_green := d\<rparr>)"
    by (rule set_manual_control_completes)
  have sig: "\<forall>d' \<in> {''north'', ''south'', ''east'', ''west''}.
            map_option signal (traffic_data (snd (set_manual_control s d)) d') =
              Some (if d' = d then ''green'' else ''red'')"
  proof
    fix d' assume "d' \<in> {''north'', ''south'', ''east'', ''west''}"
    then have "d' \<in> set directions" by (simp add: directions_def)
    with e obtain a where "td d' = Some (a\<lparr>signal := if d' = d then ''green'' else ''red''\<rparr>)"
      by blast
    then show "map_option signal (traffic_data (snd (set_manual_control s d)) d') =
              Some (if d' = d then ''green'' else ''red'')"
      by (simp add: run)
  qed
  have veh: "\<forall>d'. map_option vehicles (traffic_data (snd (set_manual_control s d)) d') =
               map_option vehicles (traffic_data s d')"
  proof
    fix d'
    show "map_option vehicles (traffic_data (snd (set_manual_control s d)) d') =
               map_option vehicles (traffic_data s d')"
    proof (cases "d' \<in> set directions")
      case True
      with e obtain a where "traffic_data s d' = Some a"
        "td d' = Some (a\<lparr>signal := if d' = d then ''green'' else ''red''\<rparr>)" by blast
      then show ?thesis by (simp add: run)
    next
      case False
      with f show ?thesis by (simp add: run)
    qed
  qed
  have east: "set_manual_control simulation_state ''east'' =
      (Inr (MessageTraffic ''Manual control: east set to green''
         [''north'' \<mapsto> \<lparr>vehicles = 0, signal = ''red''\<rparr>,
          ''south'' \<mapsto> \<lparr>vehicles = 0, signal = ''red''\<rparr>,
          ''east'' \<mapsto> \<lparr>vehicles = 0, signal = ''green''\<rparr>,
          ''west'' \<mapsto> \<lparr>vehicles = 0, signal = ''red''\<rparr>]),
       simulation_state\<lparr>is_manual := True,
         traffic_data := [''north'' \<mapsto> \<lparr>vehicles = 0, signal = ''red''\<rparr>,
          ''south'' \<mapsto> \<lparr>vehicles = 0, signal = ''red''\<rparr>,
          ''east'' \<mapsto> \<lparr>vehicles = 0, signal = ''green''\<rparr>,
          ''west'' \<mapsto> \<lparr>vehicles = 0, signal = ''red''\<rparr>],
         current_green := ''east''\<rparr>)"
    by (simp add: set_manual_control_def directions_def simulation_state_def fun_upd_twist)
  show ?thesis
    using sig veh by (simp add: run east) (simp add: simulation_state_def)
qed

theorem set_manual_control_accepts_witness:
  "''south'' \<in> {''north'', ''south'', ''east'', ''west''} \<and>
   all_present (traffic_data simulation_state) \<and>
   is_manual (snd (set_manual_control simulation_state ''south'')) \<and>
   current_green (snd (set_manual_control simulation_state ''south'')) = ''south'' \<and>
   map_option signal (traffic_data (snd (set_manual_control simulation_state ''south'')) ''south'')
     = Some ''green'' \<and>
   map_option signal (traffic_data (snd (set_manual_control simulation_state ''south'')) ''north'')
     = Some ''red''"
  using set_manual_control_accepts [of "''south''" simulation_state] initial_all_present
  by simp

section \<open>pause_simulation, resume_simulation and set_auto_mode\<close>

text \<open>
  Claim C10. \<open>pause_simulation\<close> and \<open>resume_simulation\<close> write \<open>is_paused\<close> and nothing
  else, \<open>set_auto_mode\<close> writes \<open>is_manual\<close> and nothing else: the entries of the
  directions, \<open>current_green\<close>, \<open>cycle_count\<close>, \<open>insights\<close> and the other flag stay as they
  were. So resuming does not leave manual mode, and going back to automatic mode does not
  end a pause.
\<close>

theorem flag_handlers_frame:
  "is_paused (snd (pause_simulation s)) \<and>
   is_manual (snd (pause_simulation s)) = is_manual s \<and>
   traffic_data (snd (pause_simulation s)) = traffic_data s \<and>
   current_green (snd (pause_simulation s)) = current_green s \<and>
   cycle_count (snd (pause_simulation s)) = cycle_count s \<and>
   insights (snd (pause_simulation s)) = insights s \<and>
   \<not> is_paused (snd (resume_simulation s)) \<and>
   is_manual (snd (resume_simulation s)) = is_manual s \<and>
   traffic_data (snd (resume_simulation s)) = traffic_data s \<and>
   current_green (snd (resume_simulation s)) = current_green s \<and>
   cycle_count (snd (resume_simulation s)) = cycle_count s \<and>
   insights (snd (resume_simulation s)) = insights s \<and>
   \<not> is_manual (snd (set_auto_mode s)) \<and>
   is_paused (snd (set_auto_mode s)) = is_paused s \<and>
   traffic_data (snd (set_auto_mode s)) = traffic_data s \<and>
   current_green (snd (set_auto_mode s)) = current_green s \<and>
   cycle_count (snd (set_auto_mode s)) = cycle_count s \<and>
   insights (snd (set_auto_mode s)) = insights s \<and>
   snd (pause_simulation s) = s\<lparr>is_paused := True\<rparr> \<and>
   snd (resume_simulation s) = s\<lparr>is_paused := False\<rparr> \<and>
   snd (set_auto_mode s) = s\<lparr>is_manual := False\<rparr>"
  by (simp add: pause_simulation_def resume_simulation_def set_auto_mode_def)

section \<open>The green signal\<close>

lemma reset_entries_directions:
  "reset_entries directions td =
     td(''north'' \<mapsto> \<lparr>vehicles = 0, signal = ''red''\<rparr>,
        ''south'' \<mapsto> \<lparr>vehicles = 0, signal = ''red''\<rparr>,
        ''east'' \<mapsto> \<lparr>vehicles = 0, signal = ''red''\<rparr>,
        ''west'' \<mapsto> \<lparr>vehicles = 0, signal = ''red''\<rparr>)"
  by (simp add: directions_def)

text \<open>After an update that is not skipped, and after \<open>set_manual_control\<close> with one of the
  four directions, the one green signal is that of \<open>current_green\<close>.\<close>

lemma update_traffic_one_green:
  assumes "\<not> skipped s" "all_present (traffic_data s)"
  shows "green_directions (snd (update_traffic s rnd now llm)) =
           [current_green (snd (update_traffic s rnd now llm))]"
proof -
  from assms obtain i td2 ins where i: "i < 4"
    and td2: "\<forall>j<4. td2 (directions ! j) =
        Some \<lparr>vehicles = rnd j, signal = (if j = i then ''green'' else ''red'')\<rparr>"
    and run: "snd (update_traffic s rnd now llm) =
        s\<lparr> traffic_data := td2, current_green := directions ! i,
           cycle_count := cycle_count s + 1, insights := ins \<rparr>"
    by (rule update_traffic_completes [of s rnd now llm]) simp
  have "i = 0 \<or> i = 1 \<or> i = 2 \<or> i = 3" using i by arith
  then show ?thesis using td2
    by (auto simp: run green_directions_def directions_def eval_nat_numeral All_less_Suc)
qed

lemma set_manual_control_one_green:
  assumes "d \<in> set directions" "all_present (traffic_data s)"
  shows "green_directions (snd (set_manual_control s d)) = [d] \<and>
         current_green (snd (set_manual_control s d)) = d"
proof -
  from assms obtain td where
    e: "\<forall>d' \<in> set directions. \<exists>a. traffic_data s d' = Some a \<and>
        td d' = Some (a\<lparr>signal := if d' = d then ''green'' else ''red''\<rparr>)"
    and run: "set_manual_control s d =
       (Inr (MessageTraffic (''Manual control: '' @ d @ '' set to green'') td),
        s\<lparr>is_manual := True, traffic_data := td, current_green := d\<rparr>)"
    by (rule set_manual_control_completes)
  from assms(1) e show ?thesis
    by (auto simp: run green_directions_def directions_def)
qed

text \<open>
  Claim C1 asks for one green signal, that of \<open>current_green\<close>, in the initial state and
  after every handler. The initial state has no green signal although its \<open>current_green\<close>
  is north, whose entry is red; \<open>reset_simulation\<close> leaves every state like that; and
  \<open>pause_simulation\<close>, \<open>resume_simulation\<close> and \<open>set_auto_mode\<close>, served in the initial state,
  keep it so.
\<close>

theorem initial_and_reset_no_green:
  "green_directions simulation_state = [] \<and>
   current_green simulation_state = ''north'' \<and>
   traffic_data simulation_state ''north'' = Some \<lparr>vehicles = 0, signal = ''red''\<rparr> \<and>
   green_directions (snd (reset_simulation s)) = [] \<and>
   current_green (snd (reset_simulation s)) = ''north'' \<and>
   green_directions (snd (pause_simulation simulation_state)) = [] \<and>
   green_directions (snd (resume_simulation simulation_state)) = [] \<and>
   green_directions (snd (set_auto_mode simulation_state)) = []"
  by (simp add: green_directions_def simulation_state_def reset_simulation_def
      reset_entries_directions pause_simulation_def resume_simulation_def set_auto_mode_def
      directions_def Let_def)

section \<open>reset_simulation\<close>

text \<open>
  Claim C2 asks that a reset gives counts 0, north green and the others red,
  \<open>current_green\<close> north, both flags off, \<open>cycle_count\<close> 0 and no insights. The handler
  returns its normal response from every state and sets all of these but one: it stores a
  red signal for north as well, as the initial state has it.
\<close>

theorem reset_simulation_north_red:
  "traffic_data (snd (reset_simulation s)) ''north'' = Some \<lparr>vehicles = 0, signal = ''red''\<rparr> \<and>
   traffic_data (snd (reset_simulation s)) ''south'' = Some \<lparr>vehicles = 0, signal = ''red''\<rparr> \<and>
   traffic_data (snd (reset_simulation s)) ''east'' = Some \<lparr>vehicles = 0, signal = ''red''\<rparr> \<and>
   traffic_data (snd (reset_simulation s)) ''west'' = Some \<lparr>vehicles = 0, signal = ''red''\<rparr> \<and>
   current_green (snd (reset_simulation s)) = ''north'' \<and>
   \<not> is_paused (snd (reset_simulation s)) \<and>
   \<not> is_manual (snd (reset_simulation s)) \<and>
   cycle_count (snd (reset_simulation s)) = 0 \<and>
   insights (snd (reset_simulation s)) = [] \<and>
   (\<exists>td. fst (reset_simulation s) = Inr (MessageTraffic ''Simulation reset'' td)) \<and>
   snd (reset_simulation simulation_state) = simulation_state"
  by (simp add: reset_simulation_def reset_entries_directions Let_def simulation_state_def)

section \<open>Lists of requests\<close>

text \<open>What every handler keeps, on any state: the two flags under an update, the bound
  on the history, the four entries.\<close>

lemma update_traffic_flags:
  "is_paused (snd (update_traffic s rnd now llm)) = is_paused s \<and>
   is_manual (snd (update_traffic s rnd now llm)) = is_manual s"
  by (simp add: update_traffic_def Let_def split: prod.splits option.splits)

lemma update_traffic_skipped [simp]:
  "skipped (snd (update_traffic s rnd now llm)) = skipped s"
  by (simp add: skipped_def update_traffic_flags)

lemma update_traffic_insights_length:
  "length (insights s) \<le> 10 \<Longrightarrow> length (insights (snd (update_traffic s rnd now llm))) \<le> 10"
  by (simp add: update_traffic_def Let_def split: prod.splits option.splits)

lemma set_manual_control_frame:
  "insights (snd (set_manual_control s d)) = insights s \<and>
   cycle_count (snd (set_manual_control s d)) = cycle_count s"
  by (simp add: set_manual_control_def split: prod.splits option.splits)

lemma handle_insights_length:
  "length (insights s) \<le> 10 \<Longrightarrow> length (insights (snd (handle r s))) \<le> 10"
  by (cases r)
    (simp_all add: update_traffic_insights_length set_manual_control_frame
      pause_simulation_def resume_simulation_def set_auto_mode_def reset_simulation_def Let_def)

lemma serve_insights_length:
  "length (insights s) \<le> 10 \<Longrightarrow> length (insights (serve rs s)) \<le> 10"
  by (induction rs arbitrary: s) (simp_all add: handle_insights_length)

lemma handle_all_present:
  assumes "all_present (traffic_data s)"
  shows "all_present (traffic_data (snd (handle r s)))"
proof (cases r)
  case (Update rnd now llm)
  show ?thesis
  proof (cases "skipped s")
    case True
    then show ?thesis using assms Update by (simp add: update_traffic_def skipped_def)
  next
    case False
    from False assms obtain i td2 ins where
      td2: "\<forall>j<4. td2 (directions ! j) =
        Some \<lparr>vehicles = rnd j, signal = (if j = i then ''green'' else ''red'')\<rparr>"
      and run: "snd (update_traffic s rnd now llm) =
        s\<lparr> traffic_data := td2, current_green := directions ! i,
           cycle_count := cycle_count s + 1, insights := ins \<rparr>"
      by (rule update_traffic_completes [of s rnd now llm]) simp
    from td2 have "all_present td2"
      by (simp add: all_present_def directions_def eval_nat_numeral All_less_Suc)
    then show ?thesis using Update by (simp add: run)
  qed
next
  case (Manual d)
  show ?thesis
  proof (cases "d \<in> set directions")
    case True
    from True assms obtain td where
      e: "\<forall>d' \<in> set directions. \<exists>a. traffic_data s d' = Some a \<and>
        td d' = Some (a\<lparr>signal := if d' = d then ''green'' else ''red''\<rparr>)"
      and run: "set_manual_control s d =
       (Inr (MessageTraffic (''Manual control: '' @ d @ '' set to green'') td),
        s\<lparr>is_manual := True, traffic_data := td, current_green := d\<rparr>)"
      by (rule set_manual_control_completes)
    from e have "all_present td" by (auto simp: all_present_def list_all_iff)
    then show ?thesis using Manual by (simp add: run)
  next
    case False
    then show ?thesis using assms Manual by (simp add: set_manual_control_def)
  qed
next
  case Reset
  then show ?thesis
    by (simp add: reset_simulation_def Let_def all_present_def directions_def)
qed (use assms in \<open>simp_all add: pause_simulation_def resume_simulation_def set_auto_mode_def\<close>)

lemma serve_all_present:
  "all_present (traffic_data s) \<Longrightarrow> all_present (traffic_data (serve rs s))"
  by (induction rs arbitrary: s) (simp_all add: handle_all_present)

text \<open>One request other than a reset.\<close>

lemma handle_step:
  assumes "all_present (traffic_data s)" "r \<noteq> Reset"
  shows "length (carried_insight (fst (handle r s))) = completed_cycles [r] s \<and>
         cycle_count (snd (handle r s)) = cycle_count s + int (completed_cycles [r] s) \<and>
         (length (insights s) \<le> 10 \<longrightarrow>
            insights (snd (handle r s)) =
              take 10 (carried_insight (fst (handle r s)) @ insights s))"
proof (cases r)
  case (Update rnd now llm)
  show ?thesis
  proof (cases "skipped s")
    case True
    then show ?thesis using Update by (simp add: update_traffic_def skipped_def)
  next
    case False
    from False assms(1) obtain i td2 e where
      "update_traffic s rnd now llm =
        (Inr (UpdateResult td2 (directions ! i)
             \<lparr> timestamp = now, decision = ''Green light: '' @ upper (directions ! i),
               explanation = e, vehicle_counts = drawn rnd \<rparr>),
         s\<lparr> traffic_data := td2, current_green := directions ! i,
           cycle_count := cycle_count s + 1,
           insights :=
             take 10 (\<lparr> timestamp = now, decision = ''Green light: '' @ upper (directions ! i),
               explanation = e, vehicle_counts = drawn rnd \<rparr> # insights s) \<rparr>)"
      by (rule update_traffic_completes [of s rnd now llm])
    with False Update show ?thesis by simp
  qed
next
  case (Manual d)
  show ?thesis
  proof (cases "d \<in> set directions")
    case True
    from True assms(1) obtain td where
      "set_manual_control s d =
     (Inr (MessageTraffic (''Manual control: '' @ d @ '' set to green'') td),
      s\<lparr>is_manual := True, traffic_data := td, current_green := d\<rparr>)"
      by (rule set_manual_control_completes)
    then show ?thesis using Manual by simp
  next
    case False
    then show ?thesis using Manual by (simp add: set_manual_control_def)
  qed
qed (use assms(2) in \<open>simp_all add: pause_simulation_def resume_simulation_def set_auto_mode_def\<close>)

lemma take_append_take: "take n (xs @ take n ys) = take n (xs @ ys)"
  by (simp add: min_def)

lemma serve_without_reset:
  assumes "all_present (traffic_data s)" "Reset \<notin> set rs"
  shows "length (returned_insights rs s) = completed_cycles rs s \<and>
         cycle_count (serve rs s) = cycle_count s + int (completed_cycles rs s) \<and>
         (length (insights s) \<le> 10 \<longrightarrow>
            insights (serve rs s) = take 10 (returned_insights rs s @ insights s))"
  using assms
proof (induction rs arbitrary: s)
  case Nil
  then show ?case by simp
next
  case (Cons r rs)
  let ?s1 = "snd (handle r s)"
  from Cons.prems have r: "r \<noteq> Reset" and rs: "Reset \<notin> set rs" by auto
  have p1: "all_present (traffic_data ?s1)" using Cons.prems(1) by (rule handle_all_present)
  note step = handle_step [OF Cons.prems(1) r]
  note ih = Cons.IH [OF p1 rs]
  have a: "length (returned_insights (r # rs) s) = completed_cycles (r # rs) s"
    using step ih by simp
  have b: "cycle_count (serve (r # rs) s) = cycle_count s + int (completed_cycles (r # rs) s)"
    using step ih by simp
  have c: "length (insights s) \<le> 10 \<longrightarrow>
            insights (serve (r # rs) s) = take 10 (returned_insights (r # rs) s @ insights s)"
  proof
    assume l: "length (insights s) \<le> 10"
    then have l1: "length (insights ?s1) \<le> 10" by (rule handle_insights_length)
    from step l have s1: "insights ?s1 = take 10 (carried_insight (fst (handle r s)) @ insights s)"
      by blast
    from ih l1 have "insights (serve rs ?s1) = take 10 (returned_insights rs ?s1 @ insights ?s1)"
      by blast
    also have "\<dots> = take 10 (returned_insights rs ?s1 @ carried_insight (fst (handle r s)) @ insights s)"
      unfolding s1 by (rule take_append_take)
    finally show "insights (serve (r # rs) s) = take 10 (returned_insights (r # rs) s @ insights s)"
      by simp
  qed
  from a b c show ?case by blast
qed

lemma serve_append: "serve (rs @ rs') s = serve rs' (serve rs s)"
  by (induction rs arbitrary: s) simp_all

lemma completed_cycles_append:
  "completed_cycles (rs @ rs') s = completed_cycles rs s + completed_cycles rs' (serve rs s)"
  by (induction rs arbitrary: s) simp_all

lemma completed_cycles_replicate:
  "\<not> skipped s \<Longrightarrow> completed_cycles (replicate n (Update rnd now llm)) s = n"
  by (induction n arbitrary: s) simp_all

section \<open>The history of insights\<close>

text \<open>
  Claim C6 says that after 10 or more updates that were not skipped the history holds
  exactly 10 entries. Ten such updates followed by a reset leave it empty: the reset
  assigns the empty list (line 215).
\<close>

theorem insights_empty_after_ten_updates_and_reset:
  "completed_cycles (replicate 10 (Update int ''t'' None) @ [Reset]) simulation_state = 10 \<and>
   insights (serve (replicate 10 (Update int ''t'' None) @ [Reset]) simulation_state) = []"
proof -
  have "completed_cycles (replicate 10 (Update int ''t'' None)) simulation_state = 10"
    using initial_not_skipped by (rule completed_cycles_replicate)
  then show ?thesis
    by (simp add: completed_cycles_append serve_append reset_simulation_def Let_def)
qed

text \<open>
  Claim C6, amended. Whatever requests have been served since the start, resets included,
  \<open>insights\<close> holds at most 10 entries. An update that is not skipped puts the insight of its
  response in front of the history and keeps the first 10. So after any requests other
  than a reset, served from a state with the four entries and a history of at most 10, the
  history is the first 10 of: the insights returned by those requests, the latest first,
  followed by the old history; there is one returned insight for each update that was not
  skipped; and once 10 or more of them were not skipped, the history is exactly the 10
  latest returned insights and nothing older. The updates are counted from the last reset,
  which empties the history.
\<close>

theorem insights_bounded_newest_first:
  "length (insights (serve rs simulation_state)) \<le> 10 \<and>
   all_present (traffic_data (serve rs simulation_state)) \<and>
   (\<not> skipped s \<and> all_present (traffic_data s) \<longrightarrow>
      (\<exists>td g ins. fst (update_traffic s rnd now llm) = Inr (UpdateResult td g ins) \<and>
         insights (snd (update_traffic s rnd now llm)) = take 10 (ins # insights s))) \<and>
   (all_present (traffic_data s0) \<and> length (insights s0) \<le> 10 \<and> Reset \<notin> set rs0 \<longrightarrow>
      length (returned_insights rs0 s0) = completed_cycles rs0 s0 \<and>
      insights (serve rs0 s0) = take 10 (returned_insights rs0 s0 @ insights s0) \<and>
      (10 \<le> completed_cycles rs0 s0 \<longrightarrow>
         length (insights (serve rs0 s0)) = 10 \<and>
         insights (serve rs0 s0) = take 10 (returned_insights rs0 s0))) \<and>
   insights (snd (reset_simulation s1)) = []"
proof -
  have emptied: "insights (snd (reset_simulation s1)) = []"
    by (simp add: reset_simulation_def Let_def)
  have bound: "length (insights (serve rs simulation_state)) \<le> 10"
    by (rule serve_insights_length) (simp add: simulation_state_def)
  have present: "all_present (traffic_data (serve rs simulation_state))"
    using initial_all_present by (rule serve_all_present)
  have one: "\<not> skipped s \<and> all_present (traffic_data s) \<longrightarrow>
      (\<exists>td g ins. fst (update_traffic s rnd now llm) = Inr (UpdateResult td g ins) \<and>
         insights (snd (update_traffic s rnd now llm)) = take 10 (ins # insights s))"
  proof
    assume h: "\<not> skipped s \<and> all_present (traffic_data s)"
    then obtain td g ins s' where
      "update_traffic s rnd now llm =
         (Inr (UpdateResult td g ins), s'\<lparr>insights := take 10 (ins # insights s)\<rparr>)"
      by (elim conjE update_traffic_completes [of s rnd now llm]) simp
    then show "\<exists>td g ins. fst (update_traffic s rnd now llm) = Inr (UpdateResult td g ins) \<and>
         insights (snd (update_traffic s rnd now llm)) = take 10 (ins # insights s)"
      by simp
  qed
  have many: "all_present (traffic_data s0) \<and> length (insights s0) \<le> 10 \<and> Reset \<notin> set rs0 \<longrightarrow>
      length (returned_insights rs0 s0) = completed_cycles rs0 s0 \<and>
      insights (serve rs0 s0) = take 10 (returned_insights rs0 s0 @ insights s0) \<and>
      (10 \<le> completed_cycles rs0 s0 \<longrightarrow>
         length (insights (serve rs0 s0)) = 10 \<and>
         insights (serve rs0 s0) = take 10 (returned_insights rs0 s0))"
  proof
    assume h: "all_present (traffic_data s0) \<and> length (insights s0) \<le> 10 \<and> Reset \<notin> set rs0"
    then have len: "length (returned_insights rs0 s0) = completed_cycles rs0 s0"
      and ins: "insights (serve rs0 s0) = take 10 (returned_insights rs0 s0 @ insights s0)"
      using serve_without_reset [of s0 rs0] by simp_all
    have full: "10 \<le> completed_cycles rs0 s0 \<longrightarrow>
         length (insights (serve rs0 s0)) = 10 \<and>
         insights (serve rs0 s0) = take 10 (returned_insights rs0 s0)"
    proof
      assume "10 \<le> completed_cycles rs0 s0"
      with len have "10 \<le> length (returned_insights rs0 s0)" by simp
      then show "length (insights (serve rs0 s0)) = 10 \<and>
         insights (serve rs0 s0) = take 10 (returned_insights rs0 s0)"
        by (simp add: ins)
    qed
    from len ins full show "length (returned_insights rs0 s0) = completed_cycles rs0 s0 \<and>
      insights (serve rs0 s0) = take 10 (returned_insights rs0 s0 @ insights s0) \<and>
      (10 \<le> completed_cycles rs0 s0 \<longrightarrow>
         length (insights (serve rs0 s0)) = 10 \<and>
         insights (serve rs0 s0) = take 10 (returned_insights rs0 s0))"
      by blast
  qed
  from bound present one many emptied show ?thesis by blast
qed

theorem insights_bounded_newest_first_witness:
  "length (insights (serve (replicate 12 (Update int ''t'' None)) simulation_state)) = 10 \<and>
   insights (serve (replicate 12 (Update int ''t'' None)) simulation_state) =
     take 10 (returned_insights (replicate 12 (Update int ''t'' None)) simulation_state)"
proof -
  have c: "completed_cycles (replicate 12 (Update int ''t'' None)) simulation_state = 12"
    using initial_not_skipped by (rule completed_cycles_replicate)
  have l: "length (insights simulation_state) \<le> 10" by (simp add: simulation_state_def)
  have r: "Reset \<notin> set (replicate 12 (Update int ''t'' None))" by simp
  from insights_bounded_newest_first [of "[]" simulation_state int "''t''" None simulation_state
      "replicate 12 (Update int ''t'' None)"] initial_all_present l r c
  show ?thesis by simp
qed

section \<open>The cycle counter\<close>

text \<open>
  Claim C9 says that \<open>cycle_count\<close> never decreases and changes through updates only. A
  reset after one completed update takes it from 1 back to 0.
\<close>

theorem cycle_count_decreases_on_reset:
  "cycle_count (serve [Update int ''t'' None] simulation_state) = 1 \<and>
   cycle_count (serve [Update int ''t'' None, Reset] simulation_state) = 0"
  by (simp add: update_traffic_def simulation_state_def directions_def Let_def
      reset_simulation_def)

text \<open>
  Claim C9, amended. Across any requests other than a reset, served from a state with the
  four entries, \<open>cycle_count\<close> grows by exactly the number of updates that were not skipped,
  so it never decreases: an update that is not skipped adds 1, a skipped one adds nothing,
  and \<open>pause_simulation\<close>, \<open>resume_simulation\<close>, \<open>set_manual_control\<close> and \<open>set_auto_mode\<close>
  leave it as it was. \<open>reset_simulation\<close> sets it to 0.
\<close>

theorem cycle_count_without_reset:
  "(all_present (traffic_data s) \<and> Reset \<notin> set rs \<longrightarrow>
      cycle_count (serve rs s) = cycle_count s + int (completed_cycles rs s) \<and>
      cycle_count s \<le> cycle_count (serve rs s)) \<and>
   (\<not> skipped s \<and> all_present (traffic_data s) \<longrightarrow>
      cycle_count (snd (update_traffic s rnd now llm)) = cycle_count s + 1) \<and>
   (skipped s \<longrightarrow> cycle_count (snd (update_traffic s rnd now llm)) = cycle_count s) \<and>
   cycle_count (snd (pause_simulation s)) = cycle_count s \<and>
   cycle_count (snd (resume_simulation s)) = cycle_count s \<and>
   cycle_count (snd (set_manual_control s d)) = cycle_count s \<and>
   cycle_count (snd (set_auto_mode s)) = cycle_count s \<and>
   cycle_count (snd (reset_simulation s)) = 0"
proof -
  have seq: "all_present (traffic_data s) \<and> Reset \<notin> set rs \<longrightarrow>
      cycle_count (serve rs s) = cycle_count s + int (completed_cycles rs s) \<and>
      cycle_count s \<le> cycle_count (serve rs s)"
    using serve_without_reset [of s rs] by simp
  have up: "\<not> skipped s \<and> all_present (traffic_data s) \<longrightarrow>
      cycle_count (snd (update_traffic s rnd now llm)) = cycle_count s + 1"
  proof
    assume "\<not> skipped s \<and> all_present (traffic_data s)"
    then have "all_present (traffic_data s)" "Update rnd now llm \<noteq> Reset"
      "completed_cycles [Update rnd now llm] s = 1" by simp_all
    with handle_step [of s "Update rnd now llm"]
    show "cycle_count (snd (update_traffic s rnd now llm)) = cycle_count s + 1" by simp
  qed
  have skip: "skipped s \<longrightarrow> cycle_count (snd (update_traffic s rnd now llm)) = cycle_count s"
    by (simp add: update_traffic_def skipped_def)
  have rest: "cycle_count (snd (pause_simulation s)) = cycle_count s \<and>
   cycle_count (snd (resume_simulation s)) = cycle_count s \<and>
   cycle_count (snd (set_manual_control s d)) = cycle_count s \<and>
   cycle_count (snd (set_auto_mode s)) = cycle_count s \<and>
   cycle_count (snd (reset_simulation s)) = 0"
    by (simp add: pause_simulation_def resume_simulation_def set_manual_control_frame
        set_auto_mode_def reset_simulation_def Let_def)
  from seq up skip rest show ?thesis by blast
qed

theorem cycle_count_without_reset_witness:
  "cycle_count (serve [Update int ''t'' None, Pause, Update int ''u'' None, Resume,
      Manual ''east'', Auto, Update int ''v'' None] simulation_state) = 2"
proof -
  let ?rs = "[Update int ''t'' None, Pause, Update int ''u'' None, Resume,
      Manual ''east'', Auto, Update int ''v'' None]"
  have r: "Reset \<notin> set ?rs" by simp
  have c: "completed_cycles ?rs simulation_state = 2"
    by (simp add: skipped_def pause_simulation_def resume_simulation_def set_auto_mode_def
        update_traffic_flags set_manual_control_def directions_def simulation_state_def
        split: prod.splits option.splits)
  have z: "cycle_count simulation_state = 0" by (simp add: simulation_state_def)
  from cycle_count_without_reset [of simulation_state ?rs] initial_all_present r c z
  show ?thesis by simp
qed

end
